theory Spec2Isabelle
  imports Main "HOL-Library.Word"
begin

unbundle bit_operations_syntax

section \<open>Time, errors and the entropy source\<close>

text \<open>
  Go's \<open>time.Time\<close> values are compared with \<open>After\<close> and moved with \<open>Add\<close>
  only. Both are modelled on an unbounded integer count of nanoseconds, and a
  \<open>time.Duration\<close> is an integer number of nanoseconds. \<open>t.After(u)\<close> is the strict
  order \<open>u < t\<close>.

  Every call of \<open>time.Now()\<close> in the source is an explicit argument of the model, one
  argument per call, in the order in which the source reads the clock.

  \<open>rand.Read(b)\<close> on a fresh 32-byte buffer either fails with an error or fills the
  buffer. Its outcome is an argument too: \<open>Inl err\<close> or \<open>Inr b\<close>, \<open>b\<close> being the filled
  buffer. A Go \<open>error\<close> is represented by its message.
\<close>

type_synonym time = int
type_synonym duration = int
type_synonym byte = "8 word"
type_synonym error = string
type_synonym rand_result = "error + byte list"

definition After :: "time \<Rightarrow> time \<Rightarrow> bool" where
  "After t u = (u < t)"

definition Minute :: duration where
  "Minute = 60 * 1000000000"

section \<open>Encoders of the Go standard library\<close>

text \<open>
  \<open>hex.EncodeToString\<close> writes two lower-case hexadecimal digits per byte.
  \<open>base64.URLEncoding.EncodeToString\<close> is the padded base64 encoding over the
  URL-safe alphabet.
\<close>

definition hextable :: string where
  "hextable = ''0123456789abcdef''"

fun hex_EncodeToString :: "byte list \<Rightarrow> string" where
  "hex_EncodeToString [] = []"
| "hex_EncodeToString (v # vs) =
     hextable ! unat (drop_bit 4 v) # hextable ! unat (v AND 0x0f) # hex_EncodeToString vs"

definition encodeURL :: string where
  "encodeURL = ''ABCDEFGHIJKLMNOPQRSTUVWXYZabcdefghijklmnopqrstuvwxyz0123456789-_''"

definition enc64 :: "byte \<Rightarrow> char" where
  "enc64 v = encodeURL ! unat (v AND 0x3f)"

fun base64_URLEncoding_EncodeToString :: "byte list \<Rightarrow> string" where
  "base64_URLEncoding_EncodeToString (a # b # c # rest) =
     enc64 (drop_bit 2 a) # enc64 (push_bit 4 a OR drop_bit 4 b)
       # enc64 (push_bit 2 b OR drop_bit 6 c) # enc64 c
       # base64_URLEncoding_EncodeToString rest"
| "base64_URLEncoding_EncodeToString [a, b] =
     [enc64 (drop_bit 2 a), enc64 (push_bit 4 a OR drop_bit 4 b), enc64 (push_bit 2 b), CHR ''='']"
| "base64_URLEncoding_EncodeToString [a] =
     [enc64 (drop_bit 2 a), enc64 (push_bit 4 a), CHR ''='', CHR ''='']"
| "base64_URLEncoding_EncodeToString [] = []"

section \<open>The OAuth state registry (package auth, oauth.go)\<close>

record OAuthState =
  Token :: string
  ExpiresAt :: time

text \<open>
  Of \<open>OAuthService.config\<close> the registry uses \<open>config.AuthCodeURL(state,
  oauth2.AccessTypeOffline)\<close> only, a function of the oauth2 library from the state
  token to the redirect URL. The field \<open>config\<close> holds that function. The entries of
  \<open>states\<close> are never written after their creation, so the map holds them by value.
  The mutex serialises the methods; every method below is one critical section.
\<close>

record OAuthService =
  config :: "string \<Rightarrow> string"
  states :: "string \<rightharpoonup> OAuthState"

definition NewOAuthService :: "(string \<Rightarrow> string) \<Rightarrow> OAuthService" where
  "NewOAuthService cfg = \<lparr>config = cfg, states = Map.empty\<rparr>"

definition generateState :: "rand_result \<Rightarrow> error + string" where
  "generateState rnd =
     (case rnd of
        Inl err \<Rightarrow> Inl (''failed to generate state: '' @ err)
      | Inr b \<Rightarrow> Inr (base64_URLEncoding_EncodeToString b))"

definition GetAuthURL :: "OAuthService \<Rightarrow> rand_result \<Rightarrow> time \<Rightarrow> (error + string) \<times> OAuthService" where
  "GetAuthURL s rnd now =
     (case generateState rnd of
        Inl err \<Rightarrow> (Inl err, s)
      | Inr stateToken \<Rightarrow>
          (Inr (config s stateToken),
           s\<lparr>states := (states s)(stateToken \<mapsto>
                \<lparr>Token = stateToken, ExpiresAt = now + 10 * Minute\<rparr>)\<rparr>))"

definition ValidateState :: "OAuthService \<Rightarrow> time \<Rightarrow> string \<Rightarrow> bool \<times> OAuthService" where
  "ValidateState s now state =
     (case states s state of
        None \<Rightarrow> (False, s)
      | Some oauthState \<Rightarrow>
          if After now (ExpiresAt oauthState)
          then (False, s\<lparr>states := (states s)(state := None)\<rparr>)
          else (True, s\<lparr>states := (states s)(state := None)\<rparr>))"

text \<open>
  One tick of \<open>cleanupExpiredStates\<close>. Go's \<open>range\<close> over a map visits every key
  once, in an order the language leaves open; the order is the list \<open>tokens\<close>.
  Deleting the visited key during the iteration is allowed in Go.
\<close>

definition sweepState :: "time \<Rightarrow> string \<Rightarrow> OAuthService \<Rightarrow> OAuthService" where
  "sweepState now token s =
     (case states s token of
        None \<Rightarrow> s
      | Some state \<Rightarrow>
          if After now (ExpiresAt state)
          then s\<lparr>states := (states s)(token := None)\<rparr>
          else s)"

definition sweepExpiredStates :: "time \<Rightarrow> string list \<Rightarrow> OAuthService \<Rightarrow> OAuthService" where
  "sweepExpiredStates now tokens s = fold (sweepState now) tokens s"

text \<open>
  \<open>cleanupExpiredStates\<close> never returns: it runs one sweep per tick of its
  five-minute ticker. The model runs it over a finite prefix of the ticks, each tick
  with the clock value read at it and the iteration order of that sweep.
\<close>

fun cleanupExpiredStates :: "(time \<times> string list) list \<Rightarrow> OAuthService \<Rightarrow> OAuthService" where
  "cleanupExpiredStates [] s = s"
| "cleanupExpiredStates ((now, tokens) # ticks) s =
     cleanupExpiredStates ticks (sweepExpiredStates now tokens s)"

text \<open>
  The calls that can reach one registry, and a run of them in the order in which they
  take the mutex.
\<close>

datatype oauth_call =
    CallGetAuthURL rand_result time
  | CallValidateState time string
  | CallSweep time "string list"

fun oauth_step :: "oauth_call \<Rightarrow> OAuthService \<Rightarrow> OAuthService" where
  "oauth_step (CallGetAuthURL rnd now) s = snd (GetAuthURL s rnd now)"
| "oauth_step (CallValidateState now state) s = snd (ValidateState s now state)"
| "oauth_step (CallSweep now tokens) s = sweepExpiredStates now tokens s"

definition oauth_run :: "oauth_call list \<Rightarrow> OAuthService \<Rightarrow> OAuthService" where
  "oauth_run calls s = fold oauth_step calls s"

fun issues :: "oauth_call \<Rightarrow> string \<Rightarrow> bool" where
  "issues (CallGetAuthURL rnd now) t = (generateState rnd = Inr t)"
| "issues (CallValidateState now state) t = False"
| "issues (CallSweep now tokens) t = False"

section \<open>The session store (package auth, session.go)\<close>

record 'v Session =
  ID :: string
  UserID :: string
  Username :: string
  Email :: string
  CreatedAt :: time
  ExpiresAt :: time
  Data :: "string \<rightharpoonup> 'v"

text \<open>
  \<open>SessionManager.sessions\<close> maps a session id to a pointer, and \<open>GetSession\<close> and
  \<open>UpdateSession\<close> write through that pointer. The model keeps the indirection: an
  address is a natural number, \<open>heap\<close> gives the \<open>Session\<close> object at each address and
  \<open>allocated\<close> counts the objects that \<open>CreateSession\<close> has allocated, so that
  \<open>&Session{...}\<close> takes the address \<open>allocated\<close> and increments the counter. The
  \<open>Data\<close> map of a session is created with it and never shared, so the object holds
  it by value; \<open>'v\<close> is the type of the values stored under \<open>interface{}\<close>.
  A nil pointer is \<open>None\<close>. The mutex serialises the methods.
\<close>

type_synonym addr = nat

record 'v SessionManager =
  sessions :: "string \<rightharpoonup> addr"
  timeout :: duration
  heap :: "addr \<Rightarrow> 'v Session"
  allocated :: nat

definition zeroSession :: "'v Session" where
  "zeroSession = \<lparr>ID = [], UserID = [], Username = [], Email = [],
                   CreatedAt = 0, ExpiresAt = 0, Data = Map.empty\<rparr>"

definition NewSessionManager :: "duration \<Rightarrow> 'v SessionManager" where
  "NewSessionManager timeout' =
     \<lparr>sessions = Map.empty, timeout = timeout', heap = (\<lambda>_. zeroSession), allocated = 0\<rparr>"

definition generateSessionID :: "rand_result \<Rightarrow> error + string" where
  "generateSessionID rnd =
     (case rnd of
        Inl err \<Rightarrow> Inl err
      | Inr bytes \<Rightarrow> Inr (hex_EncodeToString bytes))"

text \<open>
  \<open>CreateSession\<close> reads the clock twice, for \<open>CreatedAt\<close> (\<open>now1\<close>) and for
  \<open>ExpiresAt\<close> (\<open>now2\<close>), after it has drawn the session id. It returns the pointer
  to the new object, or the error of the entropy source and no pointer. It does not
  look for an entry already stored under the id: such an entry is replaced.
\<close>

definition CreateSession ::
  "'v SessionManager \<Rightarrow> rand_result \<Rightarrow> time \<Rightarrow> time \<Rightarrow> string \<Rightarrow> string \<Rightarrow> string
     \<Rightarrow> (error + addr) \<times> 'v SessionManager" where
  "CreateSession sm rnd now1 now2 userID username email =
     (case generateSessionID rnd of
        Inl err \<Rightarrow> (Inl err, sm)
      | Inr sessionID \<Rightarrow>
          (let session = allocated sm
           in (Inr session,
               sm\<lparr>heap := (heap sm)(session :=
                      \<lparr>ID = sessionID, UserID = userID, Username = username, Email = email,
                       CreatedAt = now1, ExpiresAt = now2 + timeout sm, Data = Map.empty\<rparr>),
                  allocated := Suc (allocated sm),
                  sessions := (sessions sm)(sessionID \<mapsto> session)\<rparr>)))"

text \<open>
  \<open>GetSession\<close> reads the clock for the expiry test (\<open>now1\<close>) and, only when the
  session is kept, once more for the new expiry (\<open>now2\<close>). Its result is the pair of
  the pointer and the found flag.
\<close>

definition GetSession ::
  "'v SessionManager \<Rightarrow> time \<Rightarrow> time \<Rightarrow> string \<Rightarrow> (addr option \<times> bool) \<times> 'v SessionManager" where
  "GetSession sm now1 now2 sessionID =
     (case sessions sm sessionID of
        None \<Rightarrow> ((None, False), sm)
      | Some session \<Rightarrow>
          if After now1 (ExpiresAt (heap sm session))
          then ((None, False), sm\<lparr>sessions := (sessions sm)(sessionID := None)\<rparr>)
          else ((Some session, True),
                sm\<lparr>heap := (heap sm)(session :=
                       (heap sm session)\<lparr>ExpiresAt := now2 + timeout sm\<rparr>)\<rparr>))"

definition DeleteSession :: "'v SessionManager \<Rightarrow> string \<Rightarrow> 'v SessionManager" where
  "DeleteSession sm sessionID = sm\<lparr>sessions := (sessions sm)(sessionID := None)\<rparr>"

text \<open>
  \<open>UpdateSession\<close> ranges over its argument map. The map is \<open>data\<close> and the order in
  which the \<open>range\<close> statement visits its keys is the list \<open>keys\<close>; a key the map
  does not hold is not visited.
\<close>

definition setData :: "(string \<rightharpoonup> 'v) \<Rightarrow> addr \<Rightarrow> string \<Rightarrow> (addr \<Rightarrow> 'v Session) \<Rightarrow> (addr \<Rightarrow> 'v Session)" where
  "setData data session key h =
     (case data key of
        None \<Rightarrow> h
      | Some value \<Rightarrow> h(session := (h session)\<lparr>Data := (Data (h session))(key \<mapsto> value)\<rparr>))"

definition UpdateSession ::
  "'v SessionManager \<Rightarrow> string \<Rightarrow> (string \<rightharpoonup> 'v) \<Rightarrow> string list \<Rightarrow> 'v SessionManager" where
  "UpdateSession sm sessionID data keys =
     (case sessions sm sessionID of
        None \<Rightarrow> sm
      | Some session \<Rightarrow> sm\<lparr>heap := fold (setData data session) keys (heap sm)\<rparr>)"

text \<open>
  One tick of \<open>cleanupExpiredSessions\<close>: the clock is read once, then the table is
  ranged over, in the order \<open>ids\<close>, and every expired entry is deleted.
\<close>

definition sweepSession :: "time \<Rightarrow> string \<Rightarrow> 'v SessionManager \<Rightarrow> 'v SessionManager" where
  "sweepSession now id' sm =
     (case sessions sm id' of
        None \<Rightarrow> sm
      | Some session \<Rightarrow>
          if After now (ExpiresAt (heap sm session))
          then sm\<lparr>sessions := (sessions sm)(id' := None)\<rparr>
          else sm)"

definition sweepExpiredSessions :: "time \<Rightarrow> string list \<Rightarrow> 'v SessionManager \<Rightarrow> 'v SessionManager" where
  "sweepExpiredSessions now ids sm = fold (sweepSession now) ids sm"

text \<open>
  \<open>cleanupExpiredSessions\<close> loops forever over the ticks of its hourly ticker. The
  model runs a finite prefix of the ticks.
\<close>

fun cleanupExpiredSessions :: "(time \<times> string list) list \<Rightarrow> 'v SessionManager \<Rightarrow> 'v SessionManager" where
  "cleanupExpiredSessions [] sm = sm"
| "cleanupExpiredSessions ((now, ids) # ticks) sm =
     cleanupExpiredSessions ticks (sweepExpiredSessions now ids sm)"

text \<open>
  Repeated \<open>GetSession\<close> calls for one id, each with its two clock readings, and the
  results in order.
\<close>

fun GetSession_repeat ::
  "'v SessionManager \<Rightarrow> (time \<times> time) list \<Rightarrow> string \<Rightarrow> (addr option \<times> bool) list \<times> 'v SessionManager" where
  "GetSession_repeat sm [] sessionID = ([], sm)"
| "GetSession_repeat sm ((now1, now2) # calls) sessionID =
     (let (r, sm1) = GetSession sm now1 now2 sessionID;
          (rs, sm2) = GetSession_repeat sm1 calls sessionID
      in (r # rs, sm2))"

text \<open>
  The shape of the table that the methods maintain: two ids never share an object, and
  every object in the table has been allocated.
\<close>

definition separate :: "'v SessionManager \<Rightarrow> bool" where
  "separate sm \<longleftrightarrow>
     (\<forall>i j p. sessions sm i = Some p \<longrightarrow> sessions sm j = Some p \<longrightarrow> i = j) \<and>
     (\<forall>i p. sessions sm i = Some p \<longrightarrow> p < allocated sm)"

text \<open>
  The calls that can reach one store, and a run of them in the order in which they take
  the mutex. A store is built by such a run from \<open>NewSessionManager\<close>.
\<close>

datatype 'v session_call =
    CallCreateSession rand_result time time string string string
  | CallGetSession time time string
  | CallDeleteSession string
  | CallUpdateSession string "string \<rightharpoonup> 'v" "string list"
  | CallSweepSessions time "string list"

fun session_step :: "'v session_call \<Rightarrow> 'v SessionManager \<Rightarrow> 'v SessionManager" where
  "session_step (CallCreateSession rnd now1 now2 userID username email) sm =
     snd (CreateSession sm rnd now1 now2 userID username email)"
| "session_step (CallGetSession now1 now2 sessionID) sm = snd (GetSession sm now1 now2 sessionID)"
| "session_step (CallDeleteSession sessionID) sm = DeleteSession sm sessionID"
| "session_step (CallUpdateSession sessionID data keys) sm = UpdateSession sm sessionID data keys"
| "session_step (CallSweepSessions now ids) sm = sweepExpiredSessions now ids sm"

definition session_run :: "'v session_call list \<Rightarrow> 'v SessionManager \<Rightarrow> 'v SessionManager" where
  "session_run calls sm = fold session_step calls sm"

text \<open>
  A store for the examples: timeout 20, one session created at clock reading 0 from the
  random bytes 0x75 0x31, whose id is therefore \<open>7531\<close> and whose object is at
  address 0.
\<close>

definition exampleStore :: "nat SessionManager" where
  "exampleStore =
     snd (CreateSession (NewSessionManager 20) (Inr [0x75, 0x31]) 0 0
            ''u1'' ''alice'' ''alice@example.org'')"

text \<open>
  A second store, of three sessions created at the clock readings 0, 10 and 20 with
  timeout 20: the ids \<open>01\<close>, \<open>02\<close> and \<open>03\<close>, at the addresses 0, 1 and 2, expiring
  at 20, 30 and 40.
\<close>

definition threeSessions :: "nat SessionManager" where
  "threeSessions =
     snd (CreateSession
       (snd (CreateSession
         (snd (CreateSession (NewSessionManager 20) (Inr [1]) 0 0
                 ''u1'' ''alice'' ''alice@example.org''))
         (Inr [2]) 10 10 ''u2'' ''bob'' ''bob@example.org''))
       (Inr [3]) 20 20 ''u3'' ''carol'' ''carol@example.org'')"

section \<open>The legacy middleware (package middleware)\<close>

text \<open>
  Of the request the middleware reads its cookies, through \<open>Request.Cookie\<close> of
  net/http: the first cookie with the given name, or \<open>ErrNoCookie\<close>. Of the gin
  context it uses the key/value store (\<open>c.Set\<close>), the JSON response (its status and
  the message of the error it carries), \<open>c.Abort\<close> and \<open>c.Next\<close>; \<open>c.Next\<close> runs the
  rest of the handler chain, the argument \<open>rest\<close>.
\<close>

record Cookie =
  Name :: string
  Value :: string

record 'v Context =
  Request :: "Cookie list"
  Keys :: "string \<rightharpoonup> 'v"
  response :: "(nat \<times> string) option"
  aborted :: bool

definition ErrNoCookie :: error where
  "ErrNoCookie = ''http: named cookie not present''"

definition Request_Cookie :: "Cookie list \<Rightarrow> string \<Rightarrow> error + Cookie" where
  "Request_Cookie cookies name' =
     (if name' = [] then Inl ErrNoCookie
      else case filter (\<lambda>c. Name c = name') cookies of
             [] \<Rightarrow> Inl ErrNoCookie
           | c # _ \<Rightarrow> Inr c)"

definition StatusUnauthorized :: nat where
  "StatusUnauthorized = 401"

definition getSession :: "'v Context \<Rightarrow> (string \<rightharpoonup> 'v) option" where
  "getSession c =
     (case Request_Cookie (Request c) ''session'' of
        Inl err \<Rightarrow> None
      | Inr sessionCookie \<Rightarrow>
          if Value sessionCookie = [] then None
          else None)"

definition RequireAuth :: "('v Context \<Rightarrow> 'v Context) \<Rightarrow> 'v Context \<Rightarrow> 'v Context" where
  "RequireAuth rest c =
     (case getSession c of
        None \<Rightarrow>
          c\<lparr>response := Some (StatusUnauthorized, ''authentication required''), aborted := True\<rparr>
      | Some session \<Rightarrow>
          (case session ''user_id'' of
             None \<Rightarrow>
               c\<lparr>response := Some (StatusUnauthorized, ''invalid session''), aborted := True\<rparr>
           | Some userID \<Rightarrow> rest (c\<lparr>Keys := (Keys c)(''user_id'' \<mapsto> userID)\<rparr>)))"

section \<open>Properties of the OAuth state registry\<close>

lemma GetAuthURL_other:
  "generateState rnd \<noteq> Inr t \<Longrightarrow> states (snd (GetAuthURL s rnd now)) t = states s t"
  by (auto simp: GetAuthURL_def split: sum.splits)

lemma ValidateState_states:
  "states (snd (ValidateState s now state)) = (states s)(state := None)"
  by (auto simp: ValidateState_def split: option.splits)

lemma ValidateState_absent:
  "states s t = None \<Longrightarrow> ValidateState s now t = (False, s)"
  by (simp add: ValidateState_def)

lemma sweepState_absent:
  "states s t = None \<Longrightarrow> states (sweepState now token s) t = None"
  by (simp add: sweepState_def split: option.splits)

lemma sweepExpiredStates_absent:
  "states s t = None \<Longrightarrow> states (sweepExpiredStates now tokens s) t = None"
  unfolding sweepExpiredStates_def
  by (induction tokens arbitrary: s) (simp_all add: sweepState_absent)

lemma oauth_step_absent:
  "states s t = None \<Longrightarrow> \<not> issues c t \<Longrightarrow> states (oauth_step c s) t = None"
  by (cases c) (simp_all add: GetAuthURL_other ValidateState_states sweepExpiredStates_absent)

lemma oauth_run_absent:
  "states s t = None \<Longrightarrow> \<forall>c\<in>set calls. \<not> issues c t \<Longrightarrow> states (oauth_run calls s) t = None"
  unfolding oauth_run_def
  by (induction calls arbitrary: s) (simp_all add: oauth_step_absent)

text \<open>
  A token that \<open>GetAuthURL\<close> has just issued validates at any moment up to and
  including its expiry, ten minutes after the clock reading of its issue.
\<close>

lemma GetAuthURL_then_ValidateState:
  assumes "GetAuthURL s rnd issued = (Inr url, s1)"
      and "generateState rnd = Inr t"
      and "\<not> After now (issued + 10 * Minute)"
  shows "ValidateState s1 now t = (True, s1\<lparr>states := (states s1)(t := None)\<rparr>)"
  using assms by (auto simp: GetAuthURL_def ValidateState_def)

text \<open>
  C1. Single use. When \<open>ValidateState\<close> returns true for a token \<open>t\<close>, the registry it
  leaves does not hold \<open>t\<close>; validating \<open>t\<close> again at once returns false and changes
  nothing; and after any further run of calls on the registry (issues of other tokens,
  validations of any token, reaper sweeps) in which \<open>t\<close> is not issued again,
  \<open>ValidateState\<close> of \<open>t\<close> still returns false, whatever the clock reads.
\<close>

theorem ValidateState_single_use:
  assumes "ValidateState s now t = (True, s')"
  shows "states s' t = None \<and>
         (\<forall>now'. ValidateState s' now' t = (False, s')) \<and>
         (\<forall>calls now'. (\<forall>c\<in>set calls. \<not> issues c t) \<longrightarrow>
            fst (ValidateState (oauth_run calls s') now' t) = False)"
proof -
  have "s' = snd (ValidateState s now t)"
    using assms by simp
  then have gone: "states s' t = None"
    by (simp add: ValidateState_states)
  then show ?thesis
    by (simp add: ValidateState_absent oauth_run_absent)
qed

theorem ValidateState_single_use_witness:
  "ValidateState (snd (GetAuthURL (NewOAuthService id) (Inr [1, 2, 3]) 0)) 5 ''AQID''
     = (True, NewOAuthService id) \<and>
   states (NewOAuthService id) ''AQID'' = None \<and>
   fst (ValidateState (oauth_run [CallSweep 7 [''AQID''], CallGetAuthURL (Inr [1, 2, 4]) 8]
          (NewOAuthService id)) 9 ''AQID'') = False"
proof -
  have v: "ValidateState (snd (GetAuthURL (NewOAuthService id) (Inr [1, 2, 3]) 0)) 5 ''AQID''
     = (True, NewOAuthService id)"
    by (simp add: ValidateState_def GetAuthURL_def generateState_def NewOAuthService_def
        enc64_def encodeURL_def After_def Minute_def)
  have i: "\<forall>c\<in>set [CallSweep 7 [''AQID''], CallGetAuthURL (Inr [1, 2, 4]) 8]. \<not> issues c ''AQID''"
    by (simp add: generateState_def enc64_def encodeURL_def)
  show ?thesis
    using v i ValidateState_single_use [OF v] by blast
qed

text \<open>
  C2. Expiry on touch. For a token \<open>t\<close> that the registry holds with an expiry
  strictly before the clock reading \<open>now\<close>, \<open>ValidateState\<close> returns false, on the first
  attempt as on any other, and the registry it leaves is the old one without \<open>t\<close>.
\<close>

theorem ValidateState_expired:
  assumes "states s t = Some st" and "After now (OAuthState.ExpiresAt st)"
  shows "ValidateState s now t = (False, s\<lparr>states := (states s)(t := None)\<rparr>) \<and>
         states (snd (ValidateState s now t)) t = None"
  using assms by (simp add: ValidateState_def)

theorem ValidateState_expired_witness:
  "states (snd (GetAuthURL (NewOAuthService id) (Inr [1, 2, 3]) 0)) ''AQID''
     = Some \<lparr>Token = ''AQID'', OAuthState.ExpiresAt = 600000000000\<rparr> \<and>
   After 600000000001 (OAuthState.ExpiresAt \<lparr>Token = ''AQID'', OAuthState.ExpiresAt = 600000000000\<rparr>) \<and>
   ValidateState (snd (GetAuthURL (NewOAuthService id) (Inr [1, 2, 3]) 0)) 600000000001 ''AQID''
     = (False, NewOAuthService id)"
proof -
  have h: "states (snd (GetAuthURL (NewOAuthService id) (Inr [1, 2, 3]) 0)) ''AQID''
     = Some \<lparr>Token = ''AQID'', OAuthState.ExpiresAt = 600000000000\<rparr>"
    by (simp add: GetAuthURL_def generateState_def NewOAuthService_def
        enc64_def encodeURL_def Minute_def)
  have a: "After 600000000001 (OAuthState.ExpiresAt \<lparr>Token = ''AQID'', OAuthState.ExpiresAt = 600000000000\<rparr>)"
    by (simp add: After_def)
  have e: "(snd (GetAuthURL (NewOAuthService id) (Inr [1, 2, 3]) 0))
             \<lparr>states := (states (snd (GetAuthURL (NewOAuthService id) (Inr [1, 2, 3]) 0)))(''AQID'' := None)\<rparr>
           = NewOAuthService id"
    by (simp add: GetAuthURL_def generateState_def NewOAuthService_def
        enc64_def encodeURL_def)
  show ?thesis
    using h a e ValidateState_expired [OF h a] by simp
qed

section \<open>Properties of the session store\<close>

lemmas create_defs = CreateSession_def generateSessionID_def NewSessionManager_def
  hextable_def Let_def

lemma GetSession_found:
  assumes "sessions sm sid = Some p" and "\<not> After now1 (ExpiresAt (heap sm p))"
  shows "GetSession sm now1 now2 sid =
           ((Some p, True),
            sm\<lparr>heap := (heap sm)(p := (heap sm p)\<lparr>ExpiresAt := now2 + timeout sm\<rparr>)\<rparr>)"
  using assms by (simp add: GetSession_def)

lemma GetSession_lapsed:
  assumes "sessions sm sid = Some p" and "After now1 (ExpiresAt (heap sm p))"
  shows "GetSession sm now1 now2 sid =
           ((None, False), sm\<lparr>sessions := (sessions sm)(sid := None)\<rparr>)"
  using assms by (simp add: GetSession_def)

lemma GetSession_absent:
  assumes "sessions sm sid = None"
  shows "GetSession sm now1 now2 sid = ((None, False), sm)"
  using assms by (simp add: GetSession_def)

lemma GetSession_repeat_found:
  assumes "sessions sm sid = Some p"
      and "calls \<noteq> []"
      and "\<not> After (fst (hd calls)) (ExpiresAt (heap sm p))"
      and "\<forall>i. Suc i < length calls \<longrightarrow> fst (calls ! Suc i) - snd (calls ! i) < timeout sm"
  shows "fst (GetSession_repeat sm calls sid) = replicate (length calls) (Some p, True) \<and>
         sessions (snd (GetSession_repeat sm calls sid)) sid = Some p \<and>
         timeout (snd (GetSession_repeat sm calls sid)) = timeout sm \<and>
         ExpiresAt (heap (snd (GetSession_repeat sm calls sid)) p) = snd (last calls) + timeout sm"
  using assms
proof (induction calls arbitrary: sm)
  case Nil
  then show ?case by simp
next
  case (Cons call calls)
  obtain c e where call: "call = (c, e)" by (cases call)
  let ?sm1 = "sm\<lparr>heap := (heap sm)(p := (heap sm p)\<lparr>ExpiresAt := e + timeout sm\<rparr>)\<rparr>"
  have step: "GetSession sm c e sid = ((Some p, True), ?sm1)"
    using Cons.prems(1,3) call by (simp add: GetSession_found)
  show ?case
  proof (cases "calls = []")
    case True
    then show ?thesis using step call Cons.prems(1) by simp
  next
    case False
    have gap: "fst (hd calls) - e < timeout sm"
      using Cons.prems(4) [rule_format, of 0] False call by (simp add: hd_conv_nth)
    have rest: "\<forall>i. Suc i < length calls \<longrightarrow> fst (calls ! Suc i) - snd (calls ! i) < timeout ?sm1"
      using Cons.prems(4) by auto
    have "sessions ?sm1 sid = Some p"
      using Cons.prems(1) by simp
    moreover have "\<not> After (fst (hd calls)) (ExpiresAt (heap ?sm1 p))"
      using gap by (simp add: After_def)
    ultimately have ih:
      "fst (GetSession_repeat ?sm1 calls sid) = replicate (length calls) (Some p, True) \<and>
       sessions (snd (GetSession_repeat ?sm1 calls sid)) sid = Some p \<and>
       timeout (snd (GetSession_repeat ?sm1 calls sid)) = timeout ?sm1 \<and>
       ExpiresAt (heap (snd (GetSession_repeat ?sm1 calls sid)) p) = snd (last calls) + timeout ?sm1"
      using Cons.IH [of ?sm1] False rest by blast
    then show ?thesis
      using step call False by (simp add: split_beta)
  qed
qed

text \<open>
  C3. Sliding expiration. Let the table hold the session id \<open>sid\<close>, at the object
  \<open>p\<close>. (1) A \<open>GetSession\<close> whose first clock reading is not strictly past the
  session's expiry returns the pointer \<open>p\<close> with found = true and sets the expiry to
  its second clock reading plus the timeout, changing nothing else. (2) For a
  non-empty sequence of \<open>GetSession\<close> calls on \<open>sid\<close>, the first not past the expiry
  and each later one starting less than the timeout after the clock reading with which
  the one before it extended the session, every call returns found = true, however
  long the sequence. (3) After such a sequence, a call that starts more than the timeout
  after the last extension returns nil and found = false.
\<close>

theorem GetSession_sliding:
  assumes "sessions sm sid = Some p"
  shows "(\<forall>now1 now2. \<not> After now1 (ExpiresAt (heap sm p)) \<longrightarrow>
            GetSession sm now1 now2 sid =
              ((Some p, True),
               sm\<lparr>heap := (heap sm)(p := (heap sm p)\<lparr>ExpiresAt := now2 + timeout sm\<rparr>)\<rparr>)) \<and>
         (\<forall>calls. calls \<noteq> [] \<and> \<not> After (fst (hd calls)) (ExpiresAt (heap sm p)) \<and>
            (\<forall>i. Suc i < length calls \<longrightarrow> fst (calls ! Suc i) - snd (calls ! i) < timeout sm) \<longrightarrow>
            fst (GetSession_repeat sm calls sid) = replicate (length calls) (Some p, True) \<and>
            (\<forall>later later'. timeout sm < later - snd (last calls) \<longrightarrow>
               fst (GetSession (snd (GetSession_repeat sm calls sid)) later later' sid)
                 = (None, False)))"
proof (intro conjI allI impI)
  fix now1 now2
  assume "\<not> After now1 (ExpiresAt (heap sm p))"
  then show "GetSession sm now1 now2 sid =
      ((Some p, True), sm\<lparr>heap := (heap sm)(p := (heap sm p)\<lparr>ExpiresAt := now2 + timeout sm\<rparr>)\<rparr>)"
    using assms by (rule GetSession_found [rotated])
next
  fix calls :: "(time \<times> time) list"
  assume h: "calls \<noteq> [] \<and> \<not> After (fst (hd calls)) (ExpiresAt (heap sm p)) \<and>
            (\<forall>i. Suc i < length calls \<longrightarrow> fst (calls ! Suc i) - snd (calls ! i) < timeout sm)"
  then show "fst (GetSession_repeat sm calls sid) = replicate (length calls) (Some p, True)"
    using GetSession_repeat_found [OF assms, of calls] by blast
next
  fix calls :: "(time \<times> time) list" and later later' :: time
  assume h: "calls \<noteq> [] \<and> \<not> After (fst (hd calls)) (ExpiresAt (heap sm p)) \<and>
            (\<forall>i. Suc i < length calls \<longrightarrow> fst (calls ! Suc i) - snd (calls ! i) < timeout sm)"
    and late: "timeout sm < later - snd (last calls)"
  let ?sm' = "snd (GetSession_repeat sm calls sid)"
  have "sessions ?sm' sid = Some p" and "ExpiresAt (heap ?sm' p) = snd (last calls) + timeout sm"
    using GetSession_repeat_found [OF assms, of calls] h by blast+
  moreover from this late have "After later (ExpiresAt (heap ?sm' p))"
    by (simp add: After_def)
  ultimately show "fst (GetSession ?sm' later later' sid) = (None, False)"
    by (simp add: GetSession_lapsed)
qed

theorem GetSession_sliding_witness:
  "sessions exampleStore ''7531'' = Some 0 \<and>
   fst (GetSession exampleStore 10 11 ''7531'') = (Some 0, True) \<and>
   ExpiresAt (heap (snd (GetSession exampleStore 10 11 ''7531'')) 0) = 31 \<and>
   fst (GetSession_repeat exampleStore [(10, 11), (30, 30), (49, 50)] ''7531'')
     = [(Some 0, True), (Some 0, True), (Some 0, True)] \<and>
   fst (GetSession (snd (GetSession_repeat exampleStore [(10, 11), (30, 30), (49, 50)] ''7531''))
          71 71 ''7531'') = (None, False)"
proof -
  let ?calls = "[(10, 11), (30, 30), (49, 50)] :: (time \<times> time) list"
  have h: "sessions exampleStore ''7531'' = Some 0"
    by (simp add: exampleStore_def create_defs)
  have e: "ExpiresAt (heap exampleStore 0) = 20" and t: "timeout exampleStore = 20"
    by (simp_all add: exampleStore_def create_defs)
  have first: "\<not> After 10 (ExpiresAt (heap exampleStore 0))"
    by (simp add: e After_def)
  have gaps: "\<forall>i. Suc i < length ?calls \<longrightarrow>
      fst (?calls ! Suc i) - snd (?calls ! i) < timeout exampleStore"
    by (simp add: t less_Suc_eq nth_Cons')
  have late: "timeout exampleStore < 71 - snd (last ?calls)"
    by (simp add: t)
  note sliding = GetSession_sliding [OF h]
  have a: "GetSession exampleStore 10 11 ''7531'' =
      ((Some 0, True), exampleStore\<lparr>heap := (heap exampleStore)(0 :=
          (heap exampleStore 0)\<lparr>ExpiresAt := 11 + timeout exampleStore\<rparr>)\<rparr>)"
    using sliding first by blast
  have b: "fst (GetSession_repeat exampleStore ?calls ''7531'')
     = replicate (length ?calls) (Some 0, True)"
    using sliding first gaps by (simp del: GetSession_repeat.simps)
  have c: "fst (GetSession (snd (GetSession_repeat exampleStore ?calls ''7531''))
          71 71 ''7531'') = (None, False)"
    using sliding first gaps late by (simp del: GetSession_repeat.simps)
  have r: "replicate (length ?calls) (Some (0::nat), True)
            = [(Some 0, True), (Some 0, True), (Some 0, True)]"
    by (simp add: numeral_3_eq_3)
  show ?thesis
    using h a b c r by (simp add: t del: GetSession_repeat.simps)
qed

text \<open>
  C4. Lazy expiration. For a session id in the table whose expiry is strictly before
  the clock reading, \<open>GetSession\<close> returns nil and found = false and leaves the table
  without that id, everything else unchanged. For an id that the table does not hold
  it returns nil and found = false and leaves the whole store unchanged.
\<close>

theorem GetSession_expired_or_absent:
  "(\<forall>p. sessions sm sid = Some p \<and> After now1 (ExpiresAt (heap sm p)) \<longrightarrow>
      GetSession sm now1 now2 sid = ((None, False), sm\<lparr>sessions := (sessions sm)(sid := None)\<rparr>) \<and>
      sessions (snd (GetSession sm now1 now2 sid)) sid = None) \<and>
   (sessions sm sid = None \<longrightarrow> GetSession sm now1 now2 sid = ((None, False), sm))"
  by (simp add: GetSession_lapsed GetSession_absent)

theorem GetSession_expired_or_absent_witness:
  "sessions exampleStore ''7531'' = Some 0 \<and>
   After 21 (ExpiresAt (heap exampleStore 0)) \<and>
   GetSession exampleStore 21 22 ''7531''
     = ((None, False), exampleStore\<lparr>sessions := Map.empty\<rparr>) \<and>
   sessions exampleStore ''ffff'' = None \<and>
   GetSession exampleStore 5 6 ''ffff'' = ((None, False), exampleStore)"
proof -
  have h: "sessions exampleStore ''7531'' = Some 0 \<and> After 21 (ExpiresAt (heap exampleStore 0))"
    by (simp add: exampleStore_def create_defs After_def)
  have n: "sessions exampleStore ''ffff'' = None"
    by (simp add: exampleStore_def create_defs)
  have e: "(sessions exampleStore)(''7531'' := None) = Map.empty"
    by (simp add: exampleStore_def create_defs)
  show ?thesis
    using h n e
      GetSession_expired_or_absent [of exampleStore "''7531''" 21 22]
      GetSession_expired_or_absent [of exampleStore "''ffff''" 5 6]
    by simp
qed

text \<open>
  C5. Freshness. When \<open>CreateSession\<close> succeeds and returns the session object \<open>p\<close>,
  the id of \<open>p\<close> is the generated id and the table maps it to \<open>p\<close>; a \<open>GetSession\<close> of
  that id that follows at once, at a clock reading not past the expiry
  \<open>now2 + timeout\<close>, returns \<open>p\<close> with found = true, and \<open>p\<close> then carries the
  \<open>userID\<close>, \<open>username\<close> and \<open>email\<close> given to \<open>CreateSession\<close>, the first clock
  reading of \<open>CreateSession\<close> as its creation time, and an empty data map.
\<close>

theorem CreateSession_then_GetSession:
  assumes "CreateSession sm rnd now1 now2 userID username email = (Inr p, sm1)"
      and "\<not> After now (now2 + timeout sm)"
  shows "generateSessionID rnd = Inr (ID (heap sm1 p)) \<and>
         sessions sm1 (ID (heap sm1 p)) = Some p \<and>
         fst (GetSession sm1 now now' (ID (heap sm1 p))) = (Some p, True) \<and>
         ID (heap (snd (GetSession sm1 now now' (ID (heap sm1 p)))) p) = ID (heap sm1 p) \<and>
         UserID (heap (snd (GetSession sm1 now now' (ID (heap sm1 p)))) p) = userID \<and>
         Username (heap (snd (GetSession sm1 now now' (ID (heap sm1 p)))) p) = username \<and>
         Email (heap (snd (GetSession sm1 now now' (ID (heap sm1 p)))) p) = email \<and>
         CreatedAt (heap (snd (GetSession sm1 now now' (ID (heap sm1 p)))) p) = now1 \<and>
         Data (heap (snd (GetSession sm1 now now' (ID (heap sm1 p)))) p) = Map.empty"
  using assms
  by (auto simp: CreateSession_def GetSession_def Let_def split: sum.splits)

theorem CreateSession_then_GetSession_witness:
  "fst (CreateSession (NewSessionManager 20 :: nat SessionManager) (Inr [0x75, 0x31]) 3 4
          ''u1'' ''alice'' ''alice@example.org'') = Inr 0 \<and>
   \<not> After 24 (4 + timeout (NewSessionManager 20 :: nat SessionManager)) \<and>
   fst (GetSession
          (snd (CreateSession (NewSessionManager 20 :: nat SessionManager) (Inr [0x75, 0x31]) 3 4
                  ''u1'' ''alice'' ''alice@example.org''))
          24 25 ''7531'') = (Some 0, True) \<and>
   UserID (heap (snd (GetSession
          (snd (CreateSession (NewSessionManager 20 :: nat SessionManager) (Inr [0x75, 0x31]) 3 4
                  ''u1'' ''alice'' ''alice@example.org''))
          24 25 ''7531'')) 0) = ''u1'' \<and>
   CreatedAt (heap (snd (GetSession
          (snd (CreateSession (NewSessionManager 20 :: nat SessionManager) (Inr [0x75, 0x31]) 3 4
                  ''u1'' ''alice'' ''alice@example.org''))
          24 25 ''7531'')) 0) = 3 \<and>
   Data (heap (snd (GetSession
          (snd (CreateSession (NewSessionManager 20 :: nat SessionManager) (Inr [0x75, 0x31]) 3 4
                  ''u1'' ''alice'' ''alice@example.org''))
          24 25 ''7531'')) 0) = Map.empty"
proof -
  let ?new = "NewSessionManager 20 :: nat SessionManager"
  let ?c = "CreateSession ?new (Inr [0x75, 0x31]) 3 4 ''u1'' ''alice'' ''alice@example.org''"
  have c: "?c = (Inr 0, snd ?c)"
    by (simp add: create_defs)
  have c1: "fst ?c = Inr 0"
    by (simp add: create_defs)
  have a: "\<not> After 24 (4 + timeout ?new)"
    by (simp add: After_def NewSessionManager_def)
  have i: "ID (heap (snd ?c) 0) = ''7531''"
    by (simp add: create_defs)
  show ?thesis
    using CreateSession_then_GetSession [OF c a, of 25] i c1 a
    by simp
qed

lemma sweepSession_frame:
  "heap (sweepSession now i sm) = heap sm"
  "timeout (sweepSession now i sm) = timeout sm"
  "allocated (sweepSession now i sm) = allocated sm"
  by (simp_all add: sweepSession_def split: option.splits)

lemma sweepSession_sessions:
  "sessions (sweepSession now i sm) j =
     (case sessions sm j of
        None \<Rightarrow> None
      | Some p \<Rightarrow> if j = i \<and> After now (ExpiresAt (heap sm p)) then None else Some p)"
  by (auto simp: sweepSession_def split: option.splits)

lemma sweepExpiredSessions_frame:
  "heap (sweepExpiredSessions now ids sm) = heap sm"
  "timeout (sweepExpiredSessions now ids sm) = timeout sm"
  "allocated (sweepExpiredSessions now ids sm) = allocated sm"
  unfolding sweepExpiredSessions_def
  by (induction ids arbitrary: sm) (simp_all add: sweepSession_frame)

lemma sweepExpiredSessions_sessions:
  "sessions (sweepExpiredSessions now ids sm) j =
     (case sessions sm j of
        None \<Rightarrow> None
      | Some p \<Rightarrow> if j \<in> set ids \<and> After now (ExpiresAt (heap sm p)) then None else Some p)"
  unfolding sweepExpiredSessions_def
proof (induction ids arbitrary: sm)
  case Nil
  then show ?case by (simp split: option.splits)
next
  case (Cons i ids)
  show ?case
    by (simp add: Cons.IH sweepSession_sessions sweepSession_frame split: option.splits)
qed

text \<open>
  C6. One reaper sweep. Whatever the order \<open>ids\<close> in which the sweep at clock reading
  \<open>now\<close> visits the keys of the table, the table it leaves has lost exactly the ids
  whose session expires strictly before \<open>now\<close>; every other id keeps its object, no id
  is added, and the objects and the timeout are untouched. When every session in the
  table has expired, the sweep leaves the table empty.
\<close>

theorem sweepExpiredSessions_exact:
  assumes "set ids = dom (sessions sm)"
  shows "(\<forall>i p. sessions sm i = Some p \<longrightarrow>
            sessions (sweepExpiredSessions now ids sm) i
              = (if After now (ExpiresAt (heap sm p)) then None else Some p)) \<and>
         (\<forall>i. sessions sm i = None \<longrightarrow> sessions (sweepExpiredSessions now ids sm) i = None) \<and>
         heap (sweepExpiredSessions now ids sm) = heap sm \<and>
         timeout (sweepExpiredSessions now ids sm) = timeout sm \<and>
         ((\<forall>i p. sessions sm i = Some p \<longrightarrow> After now (ExpiresAt (heap sm p))) \<longrightarrow>
            sessions (sweepExpiredSessions now ids sm) = Map.empty)"
proof -
  have mem: "\<And>i p. sessions sm i = Some p \<Longrightarrow> i \<in> set ids"
    using assms by auto
  have one: "\<And>i p. sessions sm i = Some p \<Longrightarrow>
      sessions (sweepExpiredSessions now ids sm) i
        = (if After now (ExpiresAt (heap sm p)) then None else Some p)"
    by (simp add: sweepExpiredSessions_sessions mem)
  have two: "\<And>i. sessions sm i = None \<Longrightarrow> sessions (sweepExpiredSessions now ids sm) i = None"
    by (simp add: sweepExpiredSessions_sessions)
  have three: "sessions (sweepExpiredSessions now ids sm) = Map.empty"
    if "\<forall>i p. sessions sm i = Some p \<longrightarrow> After now (ExpiresAt (heap sm p))"
  proof
    fix i
    show "sessions (sweepExpiredSessions now ids sm) i = None"
      using that one [of i] two [of i] by (cases "sessions sm i") auto
  qed
  show ?thesis
    using one two three by (simp add: sweepExpiredSessions_frame)
qed

theorem sweepExpiredSessions_exact_witness:
  "set [''02'', ''03'', ''01''] = dom (sessions threeSessions) \<and>
   sessions threeSessions ''01'' = Some 0 \<and> After 25 (ExpiresAt (heap threeSessions 0)) \<and>
   sessions threeSessions ''02'' = Some 1 \<and> \<not> After 25 (ExpiresAt (heap threeSessions 1)) \<and>
   sessions threeSessions ''ffff'' = None \<and>
   sessions (sweepExpiredSessions 25 [''02'', ''03'', ''01''] threeSessions) ''01'' = None \<and>
   sessions (sweepExpiredSessions 25 [''02'', ''03'', ''01''] threeSessions) ''02'' = Some 1 \<and>
   sessions (sweepExpiredSessions 25 [''02'', ''03'', ''01''] threeSessions) ''ffff'' = None \<and>
   sessions (sweepExpiredSessions 41 [''02'', ''03'', ''01''] threeSessions) = Map.empty"
proof -
  have d: "set [''02'', ''03'', ''01''] = dom (sessions threeSessions)"
    by (auto simp: threeSessions_def create_defs)
  have s1: "sessions threeSessions ''01'' = Some 0"
    and s2: "sessions threeSessions ''02'' = Some 1"
    and s3: "sessions threeSessions ''03'' = Some 2"
    and s4: "sessions threeSessions ''ffff'' = None"
    by (simp_all add: threeSessions_def create_defs)
  have e: "ExpiresAt (heap threeSessions 0) = 20" "ExpiresAt (heap threeSessions 1) = 30"
    "ExpiresAt (heap threeSessions 2) = 40"
    by (simp_all add: threeSessions_def create_defs)
  have all: "\<forall>i p. sessions threeSessions i = Some p \<longrightarrow> After 41 (ExpiresAt (heap threeSessions p))"
    by (auto simp: threeSessions_def create_defs After_def split: if_splits)
  show ?thesis
    using d s1 s2 s4 e all
      sweepExpiredSessions_exact [OF d, of 25]
      sweepExpiredSessions_exact [OF d, of 41]
    by (simp add: After_def)
qed

lemma DeleteSession_absent:
  assumes "sessions sm sid = None"
  shows "DeleteSession sm sid = sm"
proof -
  have "(sessions sm)(sid := None) = sessions sm"
    using assms by (metis fun_upd_triv)
  then show ?thesis
    by (simp add: DeleteSession_def)
qed

text \<open>
  C7. Idempotent delete. \<open>DeleteSession\<close> is total and its result carries no error
  (it is the new store alone). For every store and id, issued or not, the table it
  leaves does not hold the id; deleting twice gives the store that deleting once gives;
  deleting an id that the table does not hold leaves the store as it is; every other id
  keeps its entry.
\<close>

theorem DeleteSession_idempotent:
  "sessions (DeleteSession sm sid) sid = None \<and>
   DeleteSession (DeleteSession sm sid) sid = DeleteSession sm sid \<and>
   (sessions sm sid = None \<longrightarrow> DeleteSession sm sid = sm) \<and>
   (\<forall>j. j \<noteq> sid \<longrightarrow> sessions (DeleteSession sm sid) j = sessions sm j)"
  by (simp add: DeleteSession_absent) (simp add: DeleteSession_def)

theorem DeleteSession_idempotent_witness:
  "sessions (DeleteSession exampleStore ''7531'') ''7531'' = None \<and>
   DeleteSession (DeleteSession exampleStore ''7531'') ''7531'' = DeleteSession exampleStore ''7531'' \<and>
   sessions exampleStore ''ffff'' = None \<and>
   DeleteSession exampleStore ''ffff'' = exampleStore \<and>
   ''7531'' \<noteq> ''ffff'' \<and>
   sessions (DeleteSession exampleStore ''ffff'') ''7531'' = Some 0"
proof -
  have n: "sessions exampleStore ''ffff'' = None" and h: "sessions exampleStore ''7531'' = Some 0"
    by (simp_all add: exampleStore_def create_defs)
  show ?thesis
    using n h DeleteSession_idempotent [of exampleStore "''7531''"]
      DeleteSession_idempotent [of exampleStore "''ffff''"]
    by simp
qed

lemma fold_setData:
  "fold (setData data p) keys h = h(p := (h p)\<lparr>Data := Data (h p) ++ (data |` set keys)\<rparr>)"
proof (induction keys arbitrary: h)
  case Nil
  then show ?case by simp
next
  case (Cons k keys)
  show ?case
  proof (cases "data k")
    case None
    then have "data |` set (k # keys) = data |` set keys"
      by (auto simp: restrict_map_def)
    moreover have "setData data p k h = h"
      using None by (simp add: setData_def)
    ultimately show ?thesis
      by (simp add: Cons.IH)
  next
    case (Some v)
    let ?h1 = "h(p := (h p)\<lparr>Data := (Data (h p))(k \<mapsto> v)\<rparr>)"
    have merge: "(Data (h p))(k \<mapsto> v) ++ (data |` set keys) = Data (h p) ++ (data |` set (k # keys))"
      using Some by (auto simp: map_add_def restrict_map_def split: option.splits)
    have "setData data p k h = ?h1"
      using Some by (simp add: setData_def)
    then have "fold (setData data p) (k # keys) h = fold (setData data p) keys ?h1"
      by simp
    also have "\<dots> = ?h1(p := (?h1 p)\<lparr>Data := Data (?h1 p) ++ (data |` set keys)\<rparr>)"
      by (rule Cons.IH)
    also have "\<dots> = h(p := (h p)\<lparr>Data := (Data (h p))(k \<mapsto> v) ++ (data |` set keys)\<rparr>)"
      by simp
    finally show ?thesis
      by (simp only: merge)
  qed
qed

lemma UpdateSession_present:
  assumes "sessions sm sid = Some p" and "set keys = dom data"
  shows "UpdateSession sm sid data keys =
           sm\<lparr>heap := (heap sm)(p := (heap sm p)\<lparr>Data := Data (heap sm p) ++ data\<rparr>)\<rparr>"
proof -
  have "data |` set keys = data"
    using assms(2) by (auto simp: restrict_map_def domIff)
  then show ?thesis
    using assms(1) by (simp add: UpdateSession_def fold_setData)
qed

lemma UpdateSession_absent:
  "sessions sm sid = None \<Longrightarrow> UpdateSession sm sid data keys = sm"
  by (simp add: UpdateSession_def)

text \<open>
  C8. Merge. Let \<open>keys\<close> be the keys of the argument map \<open>data\<close>, in the order in which
  the loop visits them. If the table holds \<open>sid\<close>, at the object \<open>p\<close>, then after
  \<open>UpdateSession\<close> the data of \<open>p\<close> has the value of \<open>data\<close> under every key of \<open>data\<close>
  and its old content under every other key. If the table does not hold \<open>sid\<close>, the
  store is unchanged; the result carries no error in either case.
\<close>

theorem UpdateSession_merge:
  assumes "set keys = dom data"
  shows "(\<forall>p. sessions sm sid = Some p \<longrightarrow>
            (\<forall>k v. data k = Some v \<longrightarrow>
               Data (heap (UpdateSession sm sid data keys) p) k = Some v) \<and>
            (\<forall>k. data k = None \<longrightarrow>
               Data (heap (UpdateSession sm sid data keys) p) k = Data (heap sm p) k)) \<and>
         (sessions sm sid = None \<longrightarrow> UpdateSession sm sid data keys = sm)"
  using assms by (auto simp: UpdateSession_present UpdateSession_absent map_add_def)

theorem UpdateSession_merge_witness:
  "set [''lang'', ''theme''] = dom [''theme'' \<mapsto> 1::nat, ''lang'' \<mapsto> 2] \<and>
   sessions (UpdateSession exampleStore ''7531'' [''theme'' \<mapsto> 7, ''tz'' \<mapsto> 9] [''theme'', ''tz''])
     ''7531'' = Some 0 \<and>
   Data (heap (UpdateSession
           (UpdateSession exampleStore ''7531'' [''theme'' \<mapsto> 7, ''tz'' \<mapsto> 9] [''theme'', ''tz''])
           ''7531'' [''theme'' \<mapsto> 1, ''lang'' \<mapsto> 2] [''lang'', ''theme'']) 0)
     = [''theme'' \<mapsto> 1, ''lang'' \<mapsto> 2, ''tz'' \<mapsto> 9] \<and>
   sessions exampleStore ''ffff'' = None \<and>
   UpdateSession exampleStore ''ffff'' [''theme'' \<mapsto> 1, ''lang'' \<mapsto> 2] [''lang'', ''theme'']
     = exampleStore"
proof -
  let ?d = "[''theme'' \<mapsto> 1::nat, ''lang'' \<mapsto> 2]"
  let ?sm = "UpdateSession exampleStore ''7531'' [''theme'' \<mapsto> 7, ''tz'' \<mapsto> 9] [''theme'', ''tz'']"
  have k: "set [''lang'', ''theme''] = dom ?d"
    by auto
  have h: "sessions ?sm ''7531'' = Some 0"
    by (simp add: exampleStore_def create_defs UpdateSession_def)
  have old: "Data (heap ?sm 0) = [''theme'' \<mapsto> 7, ''tz'' \<mapsto> 9]"
    by (simp add: exampleStore_def create_defs UpdateSession_def setData_def)
  have n: "sessions exampleStore ''ffff'' = None"
    by (simp add: exampleStore_def create_defs)
  note merge = UpdateSession_merge [OF k, of ?sm "''7531''"]
  have "Data (heap (UpdateSession ?sm ''7531'' ?d [''lang'', ''theme'']) 0) k
          = [''theme'' \<mapsto> 1, ''lang'' \<mapsto> 2, ''tz'' \<mapsto> 9] k" for k
  proof (cases "?d k")
    case None
    then show ?thesis
      using merge h old by (auto split: if_splits)
  next
    case (Some v)
    then show ?thesis
      using merge h by (auto split: if_splits)
  qed
  then have "Data (heap (UpdateSession ?sm ''7531'' ?d [''lang'', ''theme'']) 0)
          = [''theme'' \<mapsto> 1, ''lang'' \<mapsto> 2, ''tz'' \<mapsto> 9]"
    by (rule ext)
  then show ?thesis
    using k h n UpdateSession_merge [OF k, of exampleStore "''ffff''"] by simp
qed

text \<open>
  The methods keep the table \<open>separate\<close>, starting from the empty store.
\<close>

lemma separate_NewSessionManager: "separate (NewSessionManager t)"
  by (simp add: separate_def NewSessionManager_def)

lemma separate_CreateSession:
  assumes "separate sm"
  shows "separate (snd (CreateSession sm rnd now1 now2 userID username email))"
proof (cases "generateSessionID rnd")
  case (Inl err)
  then show ?thesis
    using assms by (simp add: CreateSession_def)
next
  case (Inr sessionID)
  have old: "\<And>i p. sessions sm i = Some p \<Longrightarrow> p < allocated sm"
    and inj: "\<And>i j p. sessions sm i = Some p \<Longrightarrow> sessions sm j = Some p \<Longrightarrow> i = j"
    using assms by (auto simp: separate_def)
  show ?thesis
    unfolding separate_def
    using Inr old inj by (auto simp: CreateSession_def Let_def less_Suc_eq split: if_splits)
qed

lemma separate_GetSession:
  assumes "separate sm"
  shows "separate (snd (GetSession sm now1 now2 sid))"
  using assms
  by (auto simp: separate_def GetSession_def split: option.splits if_splits)

lemma separate_DeleteSession:
  assumes "separate sm"
  shows "separate (DeleteSession sm sid)"
  using assms
  by (auto simp: separate_def DeleteSession_def split: if_splits)

lemma separate_UpdateSession:
  assumes "separate sm"
  shows "separate (UpdateSession sm sid data keys)"
  using assms
  by (auto simp: separate_def UpdateSession_def split: option.splits)

lemma separate_sweepExpiredSessions:
  assumes "separate sm"
  shows "separate (sweepExpiredSessions now ids sm)"
  using assms
  by (auto simp: separate_def sweepExpiredSessions_sessions sweepExpiredSessions_frame
      split: option.splits if_splits)

lemma separate_session_step:
  assumes "separate sm"
  shows "separate (session_step c sm)"
  using assms
  by (cases c)
    (simp_all add: separate_CreateSession separate_GetSession separate_DeleteSession
      separate_UpdateSession separate_sweepExpiredSessions)

lemma separate_session_run:
  assumes "separate sm"
  shows "separate (session_run calls sm)"
  using assms unfolding session_run_def
  by (induction calls arbitrary: sm) (simp_all add: separate_session_step)

lemma separate_reachable: "separate (session_run calls (NewSessionManager t))"
  by (simp add: separate_session_run separate_NewSessionManager)

text \<open>
  C10. Frame of \<open>UpdateSession\<close>. In a store whose table is \<open>separate\<close> (every store
  built by a run of the methods is, by \<open>separate_reachable\<close>), \<open>UpdateSession\<close>
  leaves the table and the timeout as they are; the object \<open>p\<close> of the session \<open>sid\<close> keeps its id, user id, user name, email,
  creation time and expiry, so the time to live is not extended; the object of every
  other session is unchanged; and since \<open>UpdateSession\<close> reads no clock, a session
  whose expiry has passed at any clock reading \<open>now\<close>, and which is still in the table,
  gets \<open>data\<close> merged into its data all the same.
\<close>

theorem UpdateSession_frame:
  assumes "separate sm" and "set keys = dom data"
  shows "sessions (UpdateSession sm sid data keys) = sessions sm \<and>
         timeout (UpdateSession sm sid data keys) = timeout sm \<and>
         (\<forall>p. sessions sm sid = Some p \<longrightarrow>
            ID (heap (UpdateSession sm sid data keys) p) = ID (heap sm p) \<and>
            UserID (heap (UpdateSession sm sid data keys) p) = UserID (heap sm p) \<and>
            Username (heap (UpdateSession sm sid data keys) p) = Username (heap sm p) \<and>
            Email (heap (UpdateSession sm sid data keys) p) = Email (heap sm p) \<and>
            CreatedAt (heap (UpdateSession sm sid data keys) p) = CreatedAt (heap sm p) \<and>
            ExpiresAt (heap (UpdateSession sm sid data keys) p) = ExpiresAt (heap sm p) \<and>
            (\<forall>now. After now (ExpiresAt (heap sm p)) \<longrightarrow>
               Data (heap (UpdateSession sm sid data keys) p) = Data (heap sm p) ++ data)) \<and>
         (\<forall>j q. j \<noteq> sid \<and> sessions sm j = Some q \<longrightarrow>
            heap (UpdateSession sm sid data keys) q = heap sm q)"
proof (cases "sessions sm sid")
  case None
  then show ?thesis by (simp add: UpdateSession_absent)
next
  case (Some p)
  have other: "q \<noteq> p" if "j \<noteq> sid" and "sessions sm j = Some q" for j q
    using that Some assms(1) by (auto simp: separate_def)
  show ?thesis
    using Some other by (auto simp: UpdateSession_present [OF Some assms(2)])
qed

theorem UpdateSession_frame_witness:
  "separate threeSessions \<and>
   set [''theme''] = dom [''theme'' \<mapsto> 1::nat] \<and>
   sessions threeSessions ''02'' = Some 1 \<and>
   After 100 (ExpiresAt (heap threeSessions 1)) \<and>
   sessions (UpdateSession threeSessions ''02'' [''theme'' \<mapsto> 1] [''theme''])
     = sessions threeSessions \<and>
   ExpiresAt (heap (UpdateSession threeSessions ''02'' [''theme'' \<mapsto> 1] [''theme'']) 1) = 30 \<and>
   Data (heap (UpdateSession threeSessions ''02'' [''theme'' \<mapsto> 1] [''theme'']) 1)
     = [''theme'' \<mapsto> 1] \<and>
   ''01'' \<noteq> ''02'' \<and> sessions threeSessions ''01'' = Some 0 \<and>
   heap (UpdateSession threeSessions ''02'' [''theme'' \<mapsto> 1] [''theme'']) 0
     = heap threeSessions 0"
proof -
  have sep: "separate threeSessions"
    unfolding threeSessions_def
    by (intro separate_CreateSession separate_NewSessionManager)
  have k: "set [''theme''] = dom [''theme'' \<mapsto> 1::nat]"
    by simp
  have s2: "sessions threeSessions ''02'' = Some 1"
    and s1: "sessions threeSessions ''01'' = Some 0"
    and e: "ExpiresAt (heap threeSessions 1) = 30"
    and d: "Data (heap threeSessions 1) = Map.empty"
    by (simp_all add: threeSessions_def create_defs)
  have late: "After 100 (ExpiresAt (heap threeSessions 1))"
    using e by (simp add: After_def)
  have ne: "''01'' \<noteq> ''02''"
    by simp
  note frame = UpdateSession_frame [OF sep k, of "''02''"]
  have other: "heap (UpdateSession threeSessions ''02'' [''theme'' \<mapsto> 1] [''theme'']) 0
     = heap threeSessions 0"
    using frame [THEN conjunct2, THEN conjunct2, THEN conjunct2, rule_format, of "''01''" 0] s1
    by simp
  have table: "sessions (UpdateSession threeSessions ''02'' [''theme'' \<mapsto> 1] [''theme''])
     = sessions threeSessions"
    using frame by (rule conjunct1)
  note this_session = frame [THEN conjunct2, THEN conjunct2, THEN conjunct1, rule_format, OF s2]
  have expiry: "ExpiresAt (heap (UpdateSession threeSessions ''02'' [''theme'' \<mapsto> 1] [''theme'']) 1) = 30"
    using this_session e by simp
  have merged: "Data (heap (UpdateSession threeSessions ''02'' [''theme'' \<mapsto> 1] [''theme'']) 1)
     = [''theme'' \<mapsto> 1]"
    using this_session [THEN conjunct2, THEN conjunct2, THEN conjunct2, THEN conjunct2,
        THEN conjunct2, THEN conjunct2, rule_format, OF late] d
    by simp
  show ?thesis
    using sep k s2 s1 late ne other table expiry merged
    by simp
qed

section \<open>Properties of the legacy middleware\<close>

text \<open>
  C9. The helper \<open>getSession\<close> returns nil for every context, whatever cookies the
  request carries, and so \<open>RequireAuth\<close> answers every request with status 401 and
  the message "authentication required" and aborts the chain; the rest of the chain
  is never run.
\<close>

theorem getSession_always_nil:
  "getSession c = None \<and>
   RequireAuth rest c =
     c\<lparr>response := Some (StatusUnauthorized, ''authentication required''), aborted := True\<rparr>"
  by (simp add: getSession_def RequireAuth_def split: sum.splits)

theorem getSession_always_nil_witness:
  "Request_Cookie [\<lparr>Name = ''session'', Value = ''abc''\<rparr>] ''session''
     = Inr \<lparr>Name = ''session'', Value = ''abc''\<rparr> \<and>
   getSession \<lparr>Request = [\<lparr>Name = ''session'', Value = ''abc''\<rparr>],
      Keys = [''user_id'' \<mapsto> 7::nat], response = None, aborted = False\<rparr> = None \<and>
   RequireAuth (\<lambda>c. c\<lparr>response := Some (200, ''ok'')\<rparr>)
     \<lparr>Request = [\<lparr>Name = ''session'', Value = ''abc''\<rparr>],
      Keys = [''user_id'' \<mapsto> 7::nat], response = None, aborted = False\<rparr>
   = \<lparr>Request = [\<lparr>Name = ''session'', Value = ''abc''\<rparr>],
      Keys = [''user_id'' \<mapsto> 7::nat],
      response = Some (401, ''authentication required''), aborted = True\<rparr>"
proof -
  have r: "Request_Cookie [\<lparr>Name = ''session'', Value = ''abc''\<rparr>] ''session''
     = Inr \<lparr>Name = ''session'', Value = ''abc''\<rparr>"
    by (simp add: Request_Cookie_def)
  show ?thesis
    using r getSession_always_nil
      [of "\<lparr>Request = [\<lparr>Name = ''session'', Value = ''abc''\<rparr>],
            Keys = [''user_id'' \<mapsto> 7::nat], response = None, aborted = False\<rparr>"
          "\<lambda>c. c\<lparr>response := Some (200, ''ok'')\<rparr>"]
    by (simp add: StatusUnauthorized_def)
qed

end
